theory Spec2Isabelle
  imports Main
begin

section \<open>Python string operations used by the SQL validator\<close>

text \<open>
  Statements are Python \<open>str\<close> values. The model covers ASCII text: a \<open>string\<close> is
  a list of 8-bit characters, \<open>upper\<close> maps \<open>a..z\<close> to \<open>A..Z\<close> and leaves every other
  character alone, which is what \<open>str.upper\<close> does on ASCII. Whitespace is what
  \<open>str.isspace\<close>, \<open>str.strip\<close>, \<open>str.split\<close> and the regular expression class
  \<open>\s\<close> accept in the ASCII range: the codes 9 to 13, 28 to 31 and 32.

  Beyond ASCII Python does more than these definitions: U+0085, U+00A0 and further code
  points are whitespace, the letters and digits of every script are word characters for
  \<open>\w\<close> and \<open>\b\<close>, and \<open>str.upper\<close> maps letters outside \<open>a..z\<close> too (one of them to
  two characters). The definitions say what the program does on a statement whose
  characters are all ASCII, \<open>is_ascii\<close>; a property that depends on the character
  classes is stated for such statements.
\<close>

definition is_ascii :: "char \<Rightarrow> bool" where
  "is_ascii c = (of_char c < (128::nat))"

definition ascii_lowercase :: string where
  "ascii_lowercase = ''abcdefghijklmnopqrstuvwxyz''"

definition ascii_uppercase :: string where
  "ascii_uppercase = ''ABCDEFGHIJKLMNOPQRSTUVWXYZ''"

definition digits :: string where
  "digits = ''0123456789''"

definition whitespace :: string where
  "whitespace = [CHR 0x09, CHR 0x0A, CHR 0x0B, CHR 0x0C, CHR 0x0D,
                 CHR 0x1C, CHR 0x1D, CHR 0x1E, CHR 0x1F, CHR 0x20]"

definition is_space :: "char \<Rightarrow> bool" where
  "is_space c = (c \<in> set whitespace)"

text \<open>The class \<open>\w\<close> of the \<open>re\<close> module on ASCII: letters, digits and the underscore.\<close>

definition is_word :: "char \<Rightarrow> bool" where
  "is_word c = (c \<in> set (ascii_lowercase @ ascii_uppercase @ digits @ ''_''))"

definition upper_char :: "char \<Rightarrow> char" where
  "upper_char c = (case map_of (zip ascii_lowercase ascii_uppercase) c of
                     Some u \<Rightarrow> u | None \<Rightarrow> c)"

definition upper :: "string \<Rightarrow> string" where
  "upper s = map upper_char s"

definition strip :: "string \<Rightarrow> string" where
  "strip s = rev (dropWhile is_space (rev (dropWhile is_space s)))"

text \<open>
  \<open>str.split()\<close> with no argument: the maximal runs of non-whitespace characters, in
  order. \<open>split_from cur s\<close> scans \<open>s\<close> with the word read so far in \<open>cur\<close>.
\<close>

fun split_from :: "string \<Rightarrow> string \<Rightarrow> string list" where
  "split_from cur [] = (if cur = [] then [] else [cur])"
| "split_from cur (c # s) =
     (if is_space c then (if cur = [] then split_from [] s else cur # split_from [] s)
      else split_from (cur @ [c]) s)"

definition py_split :: "string \<Rightarrow> string list" where
  "py_split s = split_from [] s"

text \<open>\<open>startswith s p\<close> is \<open>s.startswith(p)\<close>; \<open>contains s sub\<close> is \<open>sub in s\<close>.\<close>

definition startswith :: "string \<Rightarrow> string \<Rightarrow> bool" where
  "startswith s p = (take (length p) s = p)"

fun contains :: "string \<Rightarrow> string \<Rightarrow> bool" where
  "contains [] sub = (sub = [])"
| "contains (c # s) sub = (startswith (c # s) sub \<or> contains s sub)"

section \<open>The fragment of regular expressions the validator uses\<close>

text \<open>
  The seven patterns of \<open>_validate_readonly\<close> are sequences of four kinds of items:
  the word boundary \<open>\b\<close>, a literal word, \<open>\s+\<close> and \<open>\w+\<close>. \<open>re.search\<close> is used
  for its truth value only, so the matcher returns whether some match exists; the
  order in which a backtracking engine tries the alternatives does not show.
\<close>

datatype char_class = ClsSpace | ClsWord

datatype regex_item = Boundary | Literal string | OneOrMore char_class

fun in_class :: "char_class \<Rightarrow> char \<Rightarrow> bool" where
  "in_class ClsSpace c = is_space c"
| "in_class ClsWord c = is_word c"

text \<open>
  \<open>\b\<close> holds between two positions when exactly one of the neighbouring characters
  is a word character; the start and the end of the text count as non-word.
\<close>

fun word_before :: "char option \<Rightarrow> bool" where
  "word_before None = False"
| "word_before (Some c) = is_word c"

fun word_after :: "string \<Rightarrow> bool" where
  "word_after [] = False"
| "word_after (c # s) = is_word c"

definition at_boundary :: "char option \<Rightarrow> string \<Rightarrow> bool" where
  "at_boundary prev s = (word_before prev \<noteq> word_after s)"

fun last_char :: "char option \<Rightarrow> string \<Rightarrow> char option" where
  "last_char prev [] = prev"
| "last_char prev (c # s) = last_char (Some c) s"

text \<open>
  \<open>match_here r prev s\<close>: the items \<open>r\<close> match a prefix of \<open>s\<close>, where \<open>prev\<close> is the
  character just before \<open>s\<close> in the whole text (\<open>None\<close> at its start).
\<close>

fun match_here :: "regex_item list \<Rightarrow> char option \<Rightarrow> string \<Rightarrow> bool" where
  "match_here [] prev s = True"
| "match_here (Boundary # r) prev s = (at_boundary prev s \<and> match_here r prev s)"
| "match_here (Literal w # r) prev s =
     (startswith s w \<and> match_here r (last_char prev w) (drop (length w) s))"
| "match_here (OneOrMore k # r) prev [] = False"
| "match_here (OneOrMore k # r) prev (c # s) =
     (in_class k c \<and> (match_here (OneOrMore k # r) (Some c) s \<or> match_here r (Some c) s))"

fun search_from :: "regex_item list \<Rightarrow> char option \<Rightarrow> string \<Rightarrow> bool" where
  "search_from r prev [] = match_here r prev []"
| "search_from r prev (c # s) = (match_here r prev (c # s) \<or> search_from r (Some c) s)"

definition re_search :: "regex_item list \<Rightarrow> string \<Rightarrow> bool" where
  "re_search r s = search_from r None s"

section \<open>SQLValidator\<close>

text \<open>
  Modelled from the spec: the enumeration \<open>SecurityMode\<close> of \<open>config.py\<close>, which is not
  among the sources; the spec gives its three members, and \<open>database.py\<close> names the
  same three.
\<close>

datatype SecurityMode = READONLY | LIMITED_WRITE | FULL_ACCESS

definition READONLY_OPERATIONS :: "string set" where
  "READONLY_OPERATIONS = {''SELECT'', ''WITH'', ''SHOW'', ''DESCRIBE'', ''EXPLAIN'', ''ANALYZE''}"

definition WRITE_OPERATIONS :: "string set" where
  "WRITE_OPERATIONS = {''INSERT'', ''UPDATE''}"

definition DANGEROUS_OPERATIONS :: "string set" where
  "DANGEROUS_OPERATIONS =
     {''DELETE'', ''DROP'', ''CREATE'', ''ALTER'', ''TRUNCATE'', ''GRANT'', ''REVOKE''}"

definition extract_first_keyword :: "string \<Rightarrow> string" where
  "extract_first_keyword sql_upper =
     (case py_split sql_upper of [] \<Rightarrow> [] | w # ws \<Rightarrow> w)"

text \<open>
  The list \<open>dangerous_patterns\<close> of \<open>_validate_readonly\<close>, in the source's order:
  \<open>\bDROP\s+TABLE\b\<close>, \<open>\bTRUNCATE\s+TABLE\b\<close>, \<open>\bDELETE\s+FROM\b\<close>,
  \<open>\bINSERT\s+INTO\b\<close>, \<open>\bUPDATE\s+\w+\s+SET\b\<close>, \<open>\bCREATE\s+TABLE\b\<close>,
  \<open>\bALTER\s+TABLE\b\<close>.
\<close>

definition dangerous_patterns :: "regex_item list list" where
  "dangerous_patterns =
     [[Boundary, Literal ''DROP'', OneOrMore ClsSpace, Literal ''TABLE'', Boundary],
      [Boundary, Literal ''TRUNCATE'', OneOrMore ClsSpace, Literal ''TABLE'', Boundary],
      [Boundary, Literal ''DELETE'', OneOrMore ClsSpace, Literal ''FROM'', Boundary],
      [Boundary, Literal ''INSERT'', OneOrMore ClsSpace, Literal ''INTO'', Boundary],
      [Boundary, Literal ''UPDATE'', OneOrMore ClsSpace, OneOrMore ClsWord,
       OneOrMore ClsSpace, Literal ''SET'', Boundary],
      [Boundary, Literal ''CREATE'', OneOrMore ClsSpace, Literal ''TABLE'', Boundary],
      [Boundary, Literal ''ALTER'', OneOrMore ClsSpace, Literal ''TABLE'', Boundary]]"

definition validate_readonly :: "string \<Rightarrow> string \<Rightarrow> bool" where
  "validate_readonly first_keyword sql_upper =
     (if first_keyword \<notin> READONLY_OPERATIONS then False
      else if first_keyword = ''SELECT''
      then \<not> list_ex (\<lambda>pattern. re_search pattern sql_upper) dangerous_patterns
      else \<not> (\<exists>forbidden \<in> WRITE_OPERATIONS \<union> DANGEROUS_OPERATIONS.
                 contains sql_upper forbidden))"

definition validate_limited_write :: "string \<Rightarrow> string \<Rightarrow> bool" where
  "validate_limited_write first_keyword sql_upper =
     (if first_keyword \<notin> READONLY_OPERATIONS \<union> WRITE_OPERATIONS then False
      else \<not> (\<exists>dangerous \<in> DANGEROUS_OPERATIONS. contains sql_upper dangerous))"

text \<open>
  \<open>validate_sql\<close> ends with \<open>return False\<close> for a mode that is none of the three;
  the enumeration has no such member, so the branch has no counterpart here.
\<close>

definition validate_sql :: "string \<Rightarrow> SecurityMode \<Rightarrow> bool" where
  "validate_sql sql security_mode =
     (let sql_upper = strip (upper sql);
          first_keyword = extract_first_keyword sql_upper
      in case security_mode of
           READONLY \<Rightarrow> validate_readonly first_keyword sql_upper
         | LIMITED_WRITE \<Rightarrow> validate_limited_write first_keyword sql_upper
         | FULL_ACCESS \<Rightarrow> True)"

text \<open>
  \<open>get_error_message\<close> builds one of six Chinese messages. Each message is a
  constructor here, carrying the keyword the message interpolates:
  \<^item> \<open>ReadonlyWriteForbidden k\<close>: "read-only mode forbids the write operation: k";
  \<^item> \<open>ReadonlyDangerousForbidden k\<close>: "read-only mode forbids the dangerous operation: k";
  \<^item> \<open>ReadonlyUnsupported k\<close>: "operation not supported in read-only mode: k";
  \<^item> \<open>LimitedDangerousForbidden k\<close>: "limited-write mode forbids the dangerous
    operation: k";
  \<^item> \<open>LimitedUnsupported k\<close>: "operation not supported in limited-write mode: k";
  \<^item> \<open>ForbiddenByPolicy\<close>: "the operation is forbidden by the security policy".
\<close>

datatype reason =
    ReadonlyWriteForbidden string
  | ReadonlyDangerousForbidden string
  | ReadonlyUnsupported string
  | LimitedDangerousForbidden string
  | LimitedUnsupported string
  | ForbiddenByPolicy

definition get_error_message :: "string \<Rightarrow> SecurityMode \<Rightarrow> reason" where
  "get_error_message sql security_mode =
     (let sql_upper = strip (upper sql);
          first_keyword = extract_first_keyword sql_upper
      in case security_mode of
           READONLY \<Rightarrow>
             (if first_keyword \<in> WRITE_OPERATIONS then ReadonlyWriteForbidden first_keyword
              else if first_keyword \<in> DANGEROUS_OPERATIONS
              then ReadonlyDangerousForbidden first_keyword
              else ReadonlyUnsupported first_keyword)
         | LIMITED_WRITE \<Rightarrow>
             (if first_keyword \<in> DANGEROUS_OPERATIONS
              then LimitedDangerousForbidden first_keyword
              else LimitedUnsupported first_keyword)
         | FULL_ACCESS \<Rightarrow> ForbiddenByPolicy)"

section \<open>The database and the configuration\<close>

text \<open>
  A row is a dictionary from field names to values, kept as an association list in the
  order of the fields. The parameters of a statement are an optional tuple of values.
\<close>

datatype pyval = PyNone | PyBool bool | PyInt int | PyStr string

type_synonym row = "(string \<times> pyval) list"

type_synonym params = "pyval list option"

text \<open>
  The configuration object comes from \<open>config.py\<close>, which is not among the sources.
  The attributes \<open>database.py\<close> reads are fields here; the two predicates on the
  schema policy, \<open>is_all_schemas_allowed()\<close> and \<open>is_auto_discover_schemas()\<close>, are
  fields holding the answer they give. \<open>max_result_rows\<close> is a Python integer.
\<close>

record config =
  security_mode :: SecurityMode
  max_result_rows :: int
  enable_query_log :: bool
  allowed_schemas :: "string list"
  is_all_schemas_allowed :: bool
  is_auto_discover_schemas :: bool

text \<open>
  Modelled from the spec: \<open>is_readonly_mode()\<close> of the configuration object, whose code
  is not among the sources; the spec configures the session as read-only exactly when
  the active mode is \<open>READONLY\<close>.
\<close>

definition is_readonly_mode :: "config \<Rightarrow> bool" where
  "is_readonly_mode cfg = (security_mode cfg = READONLY)"

text \<open>
  The database is a parameter of the model. \<open>db_connect\<close> is the outcome of
  \<open>psycopg2.connect\<close> (\<open>Some e\<close>: it raises \<open>psycopg2.Error\<close> with message \<open>e\<close>).
  \<open>db_execute hist sql ps\<close> is the outcome of \<open>cur.execute(sql, ps)\<close> on a
  connection on which the statements \<open>hist\<close> ran before: an error, or the cursor's
  state, that is what \<open>fetchall()\<close> gives (it raises when the statement has no result
  set) and \<open>rowcount\<close>. \<open>db_commit hist\<close> is the outcome of \<open>conn.commit()\<close>. Closing
  a connection and opening or closing a cursor do not fail.
\<close>

record cursor =
  fetchall :: "string + row list"
  rowcount :: int

record backend =
  db_connect :: "string option"
  db_execute :: "string list \<Rightarrow> string \<Rightarrow> params \<Rightarrow> string + cursor"
  db_commit :: "string list \<Rightarrow> string option"

text \<open>
  What a call does to the outside is a trace of events, in order: the calls on the
  database driver and the lines written to the log (one constructor for each message of
  the source, with the values it interpolates).
\<close>

datatype log_msg =
    ReadonlySessionSet
  | Connected SecurityMode
  | ConnectionError string
  | ConnectionClosed
  | ExecutingSql SecurityMode string
  | ResultTruncated int
  | QuerySucceeded nat
  | OperationSucceeded int
  | SqlFailed string

datatype event =
    Connect
  | Execute string params
  | Fetchall
  | Commit
  | Close
  | Log log_msg

text \<open>
  The exceptions: the three \<open>ValueError\<close>s of \<open>database.py\<close>, told apart by their
  message, and \<open>psycopg2.Error\<close>. \<open>PolicyViolation r\<close> is the \<open>ValueError\<close> of
  \<open>execute_query\<close> whose message ends with the reason of \<open>get_error_message\<close>;
  \<open>SafeQueryNotReadonly\<close> is the one of \<open>execute_safe_query\<close>; \<open>SchemaNotAllowed s d\<close>
  is the one of the schema gate, with the requested schema and the display string of
  the policy.
\<close>

datatype schemas_display =
    AllSchemasDisplay
  | AutoDiscoverDisplay
  | ListDisplay "string list"

datatype error =
    PolicyViolation reason
  | SafeQueryNotReadonly
  | SchemaNotAllowed string schemas_display
  | DatabaseError string

section \<open>KingbaseDatabase\<close>

definition set_default_read_only :: string where
  "set_default_read_only = ''SET default_transaction_read_only = on;''"

definition set_read_only :: string where
  "set_read_only = ''SET transaction_read_only = on;''"

text \<open>
  The first part of \<open>get_connection\<close> after connecting: in read-only mode the two
  \<open>SET\<close> statements. The result is the trace and the error raised, if any.
\<close>

definition configure_session :: "config \<Rightarrow> backend \<Rightarrow> event list \<times> string option" where
  "configure_session cfg be =
     (if is_readonly_mode cfg then
        (case db_execute be [] set_default_read_only None of
           Inl e \<Rightarrow> ([Execute set_default_read_only None], Some e)
         | Inr c1 \<Rightarrow>
             (case db_execute be [set_default_read_only] set_read_only None of
                Inl e \<Rightarrow> ([Execute set_default_read_only None, Execute set_read_only None], Some e)
              | Inr c2 \<Rightarrow>
                  ([Execute set_default_read_only None, Execute set_read_only None,
                    Log ReadonlySessionSet], None)))
      else ([], None))"

definition session_history :: "config \<Rightarrow> string list" where
  "session_history cfg =
     (if is_readonly_mode cfg then [set_default_read_only, set_read_only] else [])"

text \<open>
  \<open>get_connection\<close> is a context manager; \<open>body\<close> is the block under \<open>with\<close>, given
  the statements that ran on the connection so far. An error of the driver, raised
  before the block or by it, is logged and raised again; the connection, once open, is
  closed on every path.
\<close>

definition get_connection ::
  "config \<Rightarrow> backend \<Rightarrow> (string list \<Rightarrow> event list \<times> (error + 'a)) \<Rightarrow> event list \<times> (error + 'a)"
where
  "get_connection cfg be body =
     (case db_connect be of
        Some e \<Rightarrow> ([Connect, Log (ConnectionError e)], Inl (DatabaseError e))
      | None \<Rightarrow>
          (case configure_session cfg be of
             (t1, Some e) \<Rightarrow>
               ([Connect] @ t1 @ [Log (ConnectionError e), Close, Log ConnectionClosed],
                Inl (DatabaseError e))
           | (t1, None) \<Rightarrow>
               (case db_commit be (session_history cfg) of
                  Some e \<Rightarrow>
                    ([Connect] @ t1 @ [Commit, Log (ConnectionError e), Close, Log ConnectionClosed],
                     Inl (DatabaseError e))
                | None \<Rightarrow>
                    (case body (session_history cfg) of
                       (tb, rb) \<Rightarrow>
                         ([Connect] @ t1 @ [Commit, Log (Connected (security_mode cfg))] @ tb @
                          (case rb of Inl (DatabaseError e) \<Rightarrow> [Log (ConnectionError e)] | _ \<Rightarrow> []) @
                          [Close, Log ConnectionClosed],
                          rb)))))"

text \<open>The tuple given to \<open>startswith\<close> in \<open>execute_query\<close>.\<close>

definition retrieval_prefixes :: "string list" where
  "retrieval_prefixes = [''SELECT'', ''WITH'', ''SHOW'', ''DESCRIBE'', ''EXPLAIN'']"

definition is_retrieval :: "string \<Rightarrow> bool" where
  "is_retrieval sql = list_ex (startswith (strip (upper sql))) retrieval_prefixes"

text \<open>The slice \<open>xs[:n]\<close>: a negative \<open>n\<close> counts from the end.\<close>

definition py_slice_to :: "'a list \<Rightarrow> int \<Rightarrow> 'a list" where
  "py_slice_to xs n =
     (if 0 \<le> n then take (nat n) xs else take (nat (int (length xs) + n)) xs)"

text \<open>\<open>dict(row)\<close> copies the row's items into a plain dictionary.\<close>

definition dict :: "row \<Rightarrow> row" where
  "dict r = r"

definition status_record :: "int \<Rightarrow> row" where
  "status_record affected_rows =
     [(''affected_rows'', PyInt affected_rows), (''status'', PyStr ''success'')]"

text \<open>The block of \<open>execute_query\<close> under \<open>with self.get_connection() as conn\<close>.\<close>

definition run_statement ::
  "config \<Rightarrow> backend \<Rightarrow> string \<Rightarrow> params \<Rightarrow> string list \<Rightarrow> event list \<times> (error + row list)"
where
  "run_statement cfg be sql ps hist =
     (case db_execute be hist sql ps of
        Inl e \<Rightarrow> ([Execute sql ps, Log (SqlFailed e)], Inl (DatabaseError e))
      | Inr cur \<Rightarrow>
          if is_retrieval sql then
            (case fetchall cur of
               Inl e \<Rightarrow> ([Execute sql ps, Fetchall, Log (SqlFailed e)], Inl (DatabaseError e))
             | Inr results \<Rightarrow>
                 if int (length results) > max_result_rows cfg then
                   ([Execute sql ps, Fetchall, Log (ResultTruncated (max_result_rows cfg)),
                     Log (QuerySucceeded (length (py_slice_to results (max_result_rows cfg))))],
                    Inr (map dict (py_slice_to results (max_result_rows cfg))))
                 else
                   ([Execute sql ps, Fetchall, Log (QuerySucceeded (length results))],
                    Inr (map dict results)))
          else
            (case db_commit be (hist @ [sql]) of
               Some e \<Rightarrow> ([Execute sql ps, Commit, Log (SqlFailed e)], Inl (DatabaseError e))
             | None \<Rightarrow>
                 ([Execute sql ps, Commit, Log (OperationSucceeded (rowcount cur))],
                  Inr [status_record (rowcount cur)])))"

definition query_log :: "config \<Rightarrow> string \<Rightarrow> event list" where
  "query_log cfg sql =
     (if enable_query_log cfg then [Log (ExecutingSql (security_mode cfg) (take 200 sql))]
      else [])"

definition execute_query ::
  "config \<Rightarrow> backend \<Rightarrow> string \<Rightarrow> params \<Rightarrow> event list \<times> (error + row list)"
where
  "execute_query cfg be sql ps =
     (if \<not> validate_sql sql (security_mode cfg)
      then ([], Inl (PolicyViolation (get_error_message sql (security_mode cfg))))
      else (case get_connection cfg be (run_statement cfg be sql ps) of
              (t, r) \<Rightarrow> (query_log cfg sql @ t, r)))"

definition execute_safe_query ::
  "config \<Rightarrow> backend \<Rightarrow> string \<Rightarrow> params \<Rightarrow> event list \<times> (error + row list)"
where
  "execute_safe_query cfg be sql ps =
     (if \<not> validate_sql sql READONLY then ([], Inl SafeQueryNotReadonly)
      else execute_query cfg be sql ps)"

subsection \<open>The schema gate\<close>

definition schema_test_sql :: string where
  "schema_test_sql =
      ''\<newline>'' @
      ''                SELECT schema_name \<newline>'' @
      ''                FROM information_schema.schemata \<newline>'' @
      ''                WHERE schema_name = %s;\<newline>'' @
      ''                ''"

text \<open>
  \<open>_is_schema_allowed\<close>: under automatic discovery any exception of the catalogue
  query counts as a refusal.
\<close>

definition is_schema_allowed :: "config \<Rightarrow> backend \<Rightarrow> string \<Rightarrow> event list \<times> bool" where
  "is_schema_allowed cfg be schema =
     (if is_all_schemas_allowed cfg then ([], True)
      else if is_auto_discover_schemas cfg then
        (case execute_safe_query cfg be schema_test_sql (Some [PyStr schema]) of
           (t, Inr result) \<Rightarrow> (t, length result > 0)
         | (t, Inl e) \<Rightarrow> (t, False))
      else ([], schema \<in> set (allowed_schemas cfg)))"

text \<open>
  \<open>_get_allowed_schemas_display\<close>: the two fixed texts "all schemas" (with a star) and
  "automatic discovery (auto)", or \<open>str\<close> of the configured schemas.
\<close>

definition get_allowed_schemas_display :: "config \<Rightarrow> schemas_display" where
  "get_allowed_schemas_display cfg =
     (if is_all_schemas_allowed cfg then AllSchemasDisplay
      else if is_auto_discover_schemas cfg then AutoDiscoverDisplay
      else ListDisplay (allowed_schemas cfg))"

definition all_tables_sql :: string where
  "all_tables_sql =
      ''\<newline>'' @
      ''        SELECT \<newline>'' @
      ''            schemaname,\<newline>'' @
      ''            tablename,\<newline>'' @
      ''            tableowner,\<newline>'' @
      ''            hasindexes,\<newline>'' @
      ''            hasrules,\<newline>'' @
      ''            hastriggers,\<newline>'' @
      ''            rowsecurity\<newline>'' @
      ''        FROM pg_tables \<newline>'' @
      ''        WHERE schemaname = %s\<newline>'' @
      ''        ORDER BY tablename;\<newline>'' @
      ''        ''"

definition get_all_tables ::
  "config \<Rightarrow> backend \<Rightarrow> string \<Rightarrow> event list \<times> (error + row list)"
where
  "get_all_tables cfg be schema =
     (case is_schema_allowed cfg be schema of
        (t, False) \<Rightarrow> (t, Inl (SchemaNotAllowed schema (get_allowed_schemas_display cfg)))
      | (t, True) \<Rightarrow>
          (case execute_safe_query cfg be all_tables_sql (Some [PyStr schema]) of
             (t', r) \<Rightarrow> (t @ t', r)))"

section \<open>The specification's notions\<close>

text \<open>
  The specification speaks of a keyword appearing "anywhere in the text as a substring"
  and of phrases "matched as whole-word sequences anywhere in the text". These are the
  two notions, stated without reference to the matcher: a whole-word phrase is its
  words in order, separated by one or more whitespace characters, with no word
  character right before the first word or right after the last one. In
  \<open>UPDATE <ident> SET\<close> the identifier is a non-empty run of word characters.
\<close>

definition occurs_in :: "string \<Rightarrow> string \<Rightarrow> bool" where
  "occurs_in sub text = (\<exists>pre post. text = pre @ sub @ post)"

definition space_run :: "string \<Rightarrow> bool" where
  "space_run ws = (ws \<noteq> [] \<and> list_all is_space ws)"

definition is_identifier :: "string \<Rightarrow> bool" where
  "is_identifier i = (i \<noteq> [] \<and> list_all is_word i)"

definition ends_in_word :: "string \<Rightarrow> bool" where
  "ends_in_word pre = (pre \<noteq> [] \<and> is_word (last pre))"

definition starts_with_word :: "string \<Rightarrow> bool" where
  "starts_with_word post = (post \<noteq> [] \<and> is_word (hd post))"

definition two_word_phrase :: "string \<Rightarrow> string \<Rightarrow> string \<Rightarrow> bool" where
  "two_word_phrase w1 w2 text =
     (\<exists>pre ws post. text = pre @ w1 @ ws @ w2 @ post \<and> space_run ws \<and>
        \<not> ends_in_word pre \<and> \<not> starts_with_word post)"

definition update_set_phrase :: "string \<Rightarrow> bool" where
  "update_set_phrase text =
     (\<exists>pre ws1 i ws2 post. text = pre @ ''UPDATE'' @ ws1 @ i @ ws2 @ ''SET'' @ post \<and>
        space_run ws1 \<and> is_identifier i \<and> space_run ws2 \<and>
        \<not> ends_in_word pre \<and> \<not> starts_with_word post)"

definition embedded_dangerous_clause :: "string \<Rightarrow> bool" where
  "embedded_dangerous_clause text =
     (two_word_phrase ''DROP'' ''TABLE'' text \<or>
      two_word_phrase ''TRUNCATE'' ''TABLE'' text \<or>
      two_word_phrase ''DELETE'' ''FROM'' text \<or>
      two_word_phrase ''INSERT'' ''INTO'' text \<or>
      update_set_phrase text \<or>
      two_word_phrase ''CREATE'' ''TABLE'' text \<or>
      two_word_phrase ''ALTER'' ''TABLE'' text)"

text \<open>
  The database lets a session open: connecting, the read-only settings (when the mode
  asks for them) and the first commit all succeed.
\<close>

definition session_opens :: "config \<Rightarrow> backend \<Rightarrow> bool" where
  "session_opens cfg be =
     (db_connect be = None \<and> snd (configure_session cfg be) = None \<and>
      db_commit be (session_history cfg) = None)"

section \<open>Reading a reason; a sample configuration and database\<close>

text \<open>
  What a reason names: the mode and the keyword its message mentions.
\<close>

fun reason_mode :: "reason \<Rightarrow> SecurityMode option" where
  "reason_mode (ReadonlyWriteForbidden k) = Some READONLY"
| "reason_mode (ReadonlyDangerousForbidden k) = Some READONLY"
| "reason_mode (ReadonlyUnsupported k) = Some READONLY"
| "reason_mode (LimitedDangerousForbidden k) = Some LIMITED_WRITE"
| "reason_mode (LimitedUnsupported k) = Some LIMITED_WRITE"
| "reason_mode ForbiddenByPolicy = None"

fun reason_keyword :: "reason \<Rightarrow> string option" where
  "reason_keyword (ReadonlyWriteForbidden k) = Some k"
| "reason_keyword (ReadonlyDangerousForbidden k) = Some k"
| "reason_keyword (ReadonlyUnsupported k) = Some k"
| "reason_keyword (LimitedDangerousForbidden k) = Some k"
| "reason_keyword (LimitedUnsupported k) = Some k"
| "reason_keyword ForbiddenByPolicy = None"

text \<open>
  A configuration with the allow-list \<open>public\<close> and a database that accepts every
  statement and answers three rows, for evaluating the model on concrete calls.
\<close>

definition demo_rows :: "row list" where
  "demo_rows = [[(''n'', PyInt 1)], [(''n'', PyInt 2)], [(''n'', PyInt 3)]]"

definition demo_config :: "SecurityMode \<Rightarrow> int \<Rightarrow> config" where
  "demo_config m n =
     \<lparr>security_mode = m, max_result_rows = n, enable_query_log = False,
      allowed_schemas = [''public''], is_all_schemas_allowed = False,
      is_auto_discover_schemas = False\<rparr>"

definition demo_backend :: backend where
  "demo_backend =
     \<lparr>db_connect = None,
      db_execute = (\<lambda>hist sql ps. Inr \<lparr>fetchall = Inr demo_rows, rowcount = 3\<rparr>),
      db_commit = (\<lambda>hist. None)\<rparr>"

section \<open>Facts about the string operations\<close>

lemma startswith_iff: "startswith s p \<longleftrightarrow> (\<exists>r. s = p @ r)"
  unfolding startswith_def
  by (metis append_eq_conv_conj append_take_drop_id)

lemma contains_iff: "contains s sub \<longleftrightarrow> occurs_in sub s"
proof (induction s)
  case Nil
  show ?case by (auto simp: occurs_in_def)
next
  case (Cons c s)
  show ?case
  proof
    assume "contains (c # s) sub"
    then consider "startswith (c # s) sub" | "contains s sub" by auto
    then show "occurs_in sub (c # s)"
    proof cases
      case 1
      then obtain r where "c # s = sub @ r" unfolding startswith_iff by blast
      then have "c # s = [] @ sub @ r" by simp
      then show ?thesis unfolding occurs_in_def by blast
    next
      case 2
      then obtain pre post where "s = pre @ sub @ post"
        using Cons.IH unfolding occurs_in_def by blast
      then have "c # s = (c # pre) @ sub @ post" by simp
      then show ?thesis unfolding occurs_in_def by blast
    qed
  next
    assume "occurs_in sub (c # s)"
    then obtain pre post where e: "c # s = pre @ sub @ post"
      unfolding occurs_in_def by blast
    show "contains (c # s) sub"
    proof (cases pre)
      case Nil
      then have "startswith (c # s) sub" using e unfolding startswith_iff by auto
      then show ?thesis by simp
    next
      case (Cons a pre')
      then have "s = pre' @ sub @ post" using e by simp
      then have "contains s sub" using Cons.IH unfolding occurs_in_def by blast
      then show ?thesis by simp
    qed
  qed
qed

lemma dropWhile_keeps:
  "m \<noteq> [] \<Longrightarrow> \<not> P (hd m) \<Longrightarrow> \<exists>a'. dropWhile P (a @ m @ b) = a' @ m @ b"
proof (induction a)
  case Nil
  then have "dropWhile P (m @ b) = [] @ m @ b" by (cases m) auto
  then show ?case by (metis append_Nil)
next
  case (Cons c a)
  show ?case
  proof (cases "P c")
    case True
    then show ?thesis using Cons by simp
  next
    case False
    then have "dropWhile P ((c # a) @ m @ b) = (c # a) @ m @ b" by simp
    then show ?thesis by blast
  qed
qed

lemma strip_keeps:
  assumes "m \<noteq> []" "\<not> is_space (hd m)" "\<not> is_space (last m)"
  shows "\<exists>a' b'. strip (a @ m @ b) = a' @ m @ b'"
proof -
  obtain a' where a: "dropWhile is_space (a @ m @ b) = a' @ m @ b"
    using dropWhile_keeps [of m is_space a b] assms(1,2) by blast
  have "rev m \<noteq> []" "\<not> is_space (hd (rev m))"
    using assms(1,3) by (simp_all add: hd_rev)
  then obtain b' where b: "dropWhile is_space (rev b @ rev m @ rev a') = b' @ rev m @ rev a'"
    using dropWhile_keeps [of "rev m" is_space "rev b" "rev a'"] by blast
  have "strip (a @ m @ b) = a' @ m @ rev b'"
    unfolding strip_def a using b by simp
  then show ?thesis by blast
qed

lemma upper_append: "upper (a @ b) = upper a @ upper b"
  by (simp add: upper_def)

lemma upper_char_space: "is_space (upper_char c) = is_space c"
proof (cases "map_of (zip ascii_lowercase ascii_uppercase) c")
  case None
  then show ?thesis by (simp add: upper_char_def)
next
  case (Some u)
  then have "(c, u) \<in> set (zip ascii_lowercase ascii_uppercase)" by (rule map_of_SomeD)
  then have "c \<in> set ascii_lowercase" "u \<in> set ascii_uppercase"
    by (auto dest: set_zip_leftD set_zip_rightD)
  then have "\<not> is_space c" "\<not> is_space u"
    by (auto simp: is_space_def whitespace_def ascii_lowercase_def ascii_uppercase_def)
  then show ?thesis using Some by (simp add: upper_char_def)
qed

lemma strip_empty_iff: "strip s = [] \<longleftrightarrow> list_all is_space s"
proof
  assume "strip s = []"
  then have a: "\<forall>x \<in> set (dropWhile is_space s). is_space x"
    by (simp add: strip_def)
  have "dropWhile is_space s = []"
  proof (rule ccontr)
    assume n: "dropWhile is_space s \<noteq> []"
    then have "\<not> is_space (hd (dropWhile is_space s))" by (rule hd_dropWhile)
    moreover have "hd (dropWhile is_space s) \<in> set (dropWhile is_space s)"
      using n by simp
    ultimately show False using a by blast
  qed
  then show "list_all is_space s"
    by (simp add: list_all_iff)
next
  assume "list_all is_space s"
  then show "strip s = []"
    by (auto simp: strip_def list_all_iff dest: set_dropWhileD)
qed

lemma normalized_empty_iff: "strip (upper sql) = [] \<longleftrightarrow> list_all is_space sql"
  by (simp add: strip_empty_iff upper_def list_all_iff upper_char_space)

lemma split_from_prefix:
  "split_from cur s = w # ws \<Longrightarrow> cur \<noteq> [] \<Longrightarrow> \<exists>r. cur @ s = w @ r"
proof (induction s arbitrary: cur)
  case Nil
  then show ?case by simp
next
  case (Cons c s)
  show ?case
  proof (cases "is_space c")
    case True
    then have "w = cur" using Cons.prems by simp
    then show ?thesis by blast
  next
    case False
    then have "split_from (cur @ [c]) s = w # ws" using Cons.prems by simp
    then obtain r where "(cur @ [c]) @ s = w @ r" using Cons.IH by blast
    then have "cur @ c # s = w @ r" by simp
    then show ?thesis by blast
  qed
qed

lemma strip_hd: "strip x \<noteq> [] \<Longrightarrow> \<not> is_space (hd (strip x))"
proof -
  assume n: "strip x \<noteq> []"
  let ?y = "dropWhile is_space x"
  let ?z = "dropWhile is_space (rev ?y)"
  have z: "?z \<noteq> []" using n by (simp add: strip_def)
  then have y: "?y \<noteq> []" by (metis dropWhile.simps(1) rev.simps(1))
  have "rev ?y = takeWhile is_space (rev ?y) @ ?z" by simp
  then have "?y = rev ?z @ rev (takeWhile is_space (rev ?y))"
    by (metis rev_append rev_rev_ident)
  then have "hd ?y = hd (rev ?z)" using z by (metis hd_append2 rev_is_Nil_conv)
  moreover have "\<not> is_space (hd ?y)" using y by (rule hd_dropWhile)
  ultimately show ?thesis by (simp add: strip_def)
qed

lemma first_keyword_prefix:
  assumes "extract_first_keyword (strip x) \<noteq> []"
  shows "startswith (strip x) (extract_first_keyword (strip x))"
proof (cases "strip x")
  case Nil
  then show ?thesis using assms by (simp add: extract_first_keyword_def py_split_def)
next
  case (Cons c s)
  then have c: "\<not> is_space c" using strip_hd [of x] by simp
  obtain w ws where w: "split_from [] (c # s) = w # ws"
    using assms Cons by (auto simp: extract_first_keyword_def py_split_def split: list.splits)
  then have "split_from [c] s = w # ws" using c by simp
  then obtain r where "[c] @ s = w @ r" using split_from_prefix by blast
  then have "startswith (c # s) w" by (auto simp: startswith_iff)
  then show ?thesis using Cons w by (simp add: extract_first_keyword_def py_split_def)
qed

section \<open>Facts about the matcher\<close>

lemma last_char_eq: "last_char prev w = (if w = [] then prev else Some (last w))"
  by (induction w arbitrary: prev) auto

lemma word_before_last_char: "word_before (last_char None pre) = ends_in_word pre"
  by (simp add: last_char_eq ends_in_word_def)

lemma word_after_eq: "word_after s = starts_with_word s"
  by (cases s) (simp_all add: starts_with_word_def)

lemma match_literal:
  "match_here (Literal w # r) prev s \<longleftrightarrow>
     (\<exists>rest. s = w @ rest \<and> match_here r (last_char prev w) rest)"
  by (auto simp: startswith_iff)

lemma match_plus:
  "match_here (OneOrMore k # r) prev s \<longleftrightarrow>
     (\<exists>ws rest. s = ws @ rest \<and> ws \<noteq> [] \<and> list_all (in_class k) ws \<and>
        match_here r (Some (last ws)) rest)"
proof (induction s arbitrary: prev)
  case Nil
  show ?case by simp
next
  case (Cons c s)
  show ?case
  proof
    assume m: "match_here (OneOrMore k # r) prev (c # s)"
    then have c: "in_class k c" by simp
    from m consider "match_here (OneOrMore k # r) (Some c) s" | "match_here r (Some c) s"
      by auto
    then show "\<exists>ws rest. c # s = ws @ rest \<and> ws \<noteq> [] \<and> list_all (in_class k) ws \<and>
        match_here r (Some (last ws)) rest"
    proof cases
      case 1
      then obtain ws rest where w: "s = ws @ rest" "ws \<noteq> []" "list_all (in_class k) ws"
        "match_here r (Some (last ws)) rest"
        using Cons.IH [of "Some c"] by blast
      then have "c # s = (c # ws) @ rest \<and> c # ws \<noteq> [] \<and> list_all (in_class k) (c # ws) \<and>
        match_here r (Some (last (c # ws))) rest"
        using c by simp
      then show ?thesis by blast
    next
      case 2
      then have "c # s = [c] @ s \<and> [c] \<noteq> [] \<and> list_all (in_class k) [c] \<and>
        match_here r (Some (last [c])) s"
        using c by simp
      then show ?thesis by blast
    qed
  next
    assume "\<exists>ws rest. c # s = ws @ rest \<and> ws \<noteq> [] \<and> list_all (in_class k) ws \<and>
        match_here r (Some (last ws)) rest"
    then obtain ws rest where w: "c # s = ws @ rest" "ws \<noteq> []" "list_all (in_class k) ws"
        "match_here r (Some (last ws)) rest"
      by blast
    then obtain ws' where ws: "ws = c # ws'" by (cases ws) auto
    then have s: "s = ws' @ rest" and c: "in_class k c" and a: "list_all (in_class k) ws'"
      using w by auto
    show "match_here (OneOrMore k # r) prev (c # s)"
    proof (cases "ws' = []")
      case True
      then have "match_here r (Some c) s" using w ws s by simp
      then show ?thesis using c by simp
    next
      case False
      then have "match_here r (Some (last ws')) rest" using w ws by simp
      then have "match_here (OneOrMore k # r) (Some c) s"
        using Cons.IH [of "Some c"] s a False by blast
      then show ?thesis using c by simp
    qed
  qed
qed

lemma last_char_append: "last_char prev (a @ b) = last_char (last_char prev a) b"
  by (induction a arbitrary: prev) auto

lemma search_iff:
  "search_from r prev s \<longleftrightarrow>
     (\<exists>pre post. s = pre @ post \<and> match_here r (last_char prev pre) post)"
proof (induction s arbitrary: prev)
  case Nil
  show ?case by simp
next
  case (Cons c s)
  show ?case
  proof
    assume "search_from r prev (c # s)"
    then consider "match_here r prev (c # s)" | "search_from r (Some c) s" by auto
    then show "\<exists>pre post. c # s = pre @ post \<and> match_here r (last_char prev pre) post"
    proof cases
      case 1
      then have "c # s = [] @ (c # s) \<and> match_here r (last_char prev []) (c # s)" by simp
      then show ?thesis by blast
    next
      case 2
      then obtain pre post where "s = pre @ post" "match_here r (last_char (Some c) pre) post"
        using Cons.IH [of "Some c"] by blast
      then have "c # s = (c # pre) @ post \<and> match_here r (last_char prev (c # pre)) post"
        by simp
      then show ?thesis by blast
    qed
  next
    assume "\<exists>pre post. c # s = pre @ post \<and> match_here r (last_char prev pre) post"
    then obtain pre post where e: "c # s = pre @ post" "match_here r (last_char prev pre) post"
      by blast
    show "search_from r prev (c # s)"
    proof (cases pre)
      case Nil
      then have "match_here r prev (c # s)" using e by simp
      then show ?thesis by simp
    next
      case (Cons a pre')
      then have "s = pre' @ post" "match_here r (last_char (Some c) pre') post"
        using e by auto
      then have "search_from r (Some c) s" using Cons.IH [of "Some c"] by blast
      then show ?thesis by simp
    qed
  qed
qed

lemma in_class_space: "list_all (in_class ClsSpace) ws = list_all is_space ws"
  by (induction ws) auto

lemma in_class_word: "list_all (in_class ClsWord) ws = list_all is_word ws"
  by (induction ws) auto

lemma boundary_before_word:
  "w \<noteq> [] \<Longrightarrow> is_word (hd w) \<Longrightarrow>
   at_boundary (last_char None pre) (w @ rest) = (\<not> ends_in_word pre)"
  by (cases w) (auto simp: at_boundary_def word_before_last_char)

lemma boundary_after_word:
  "w \<noteq> [] \<Longrightarrow> is_word (last w) \<Longrightarrow>
   at_boundary (last_char prev w) post = (\<not> starts_with_word post)"
  by (auto simp: at_boundary_def last_char_eq word_after_eq)

lemma two_word_search:
  assumes "w1 \<noteq> []" "is_word (hd w1)" "w2 \<noteq> []" "is_word (last w2)"
  shows "re_search [Boundary, Literal w1, OneOrMore ClsSpace, Literal w2, Boundary] text
         \<longleftrightarrow> two_word_phrase w1 w2 text"
proof
  assume "re_search [Boundary, Literal w1, OneOrMore ClsSpace, Literal w2, Boundary] text"
  then obtain pre post where p: "text = pre @ post"
    "match_here [Boundary, Literal w1, OneOrMore ClsSpace, Literal w2, Boundary]
       (last_char None pre) post"
    unfolding re_search_def search_iff by blast
  from p(2) have b1: "at_boundary (last_char None pre) post"
    and m1: "match_here (Literal w1 # [OneOrMore ClsSpace, Literal w2, Boundary])
       (last_char None pre) post"
    by simp_all
  from m1 obtain r1 where r1: "post = w1 @ r1"
    "match_here (OneOrMore ClsSpace # [Literal w2, Boundary]) (last_char (last_char None pre) w1) r1"
    unfolding match_literal by blast
  from r1(2) obtain ws r2 where r2: "r1 = ws @ r2" "ws \<noteq> []" "list_all is_space ws"
    "match_here (Literal w2 # [Boundary]) (Some (last ws)) r2"
    unfolding match_plus in_class_space by blast
  from r2(4) obtain r3 where r3: "r2 = w2 @ r3"
    "match_here [Boundary] (last_char (Some (last ws)) w2) r3"
    unfolding match_literal by blast
  from r3(2) have b2: "at_boundary (last_char (Some (last ws)) w2) r3" by simp
  have "\<not> ends_in_word pre"
    using b1 r1(1) boundary_before_word [OF assms(1,2)] by simp
  moreover have "\<not> starts_with_word r3"
    using b2 boundary_after_word [OF assms(3,4)] by simp
  moreover have "text = pre @ w1 @ ws @ w2 @ r3"
    using p(1) r1(1) r2(1) r3(1) by simp
  ultimately show "two_word_phrase w1 w2 text"
    unfolding two_word_phrase_def space_run_def using r2(2,3) by blast
next
  assume "two_word_phrase w1 w2 text"
  then obtain pre ws post where t: "text = pre @ w1 @ ws @ w2 @ post" "ws \<noteq> []"
    "list_all is_space ws" "\<not> ends_in_word pre" "\<not> starts_with_word post"
    unfolding two_word_phrase_def space_run_def by blast
  have "match_here [Boundary] (last_char (Some (last ws)) w2) post"
    using t(5) boundary_after_word [OF assms(3,4)] by simp
  then have "match_here (Literal w2 # [Boundary]) (Some (last ws)) (w2 @ post)"
    unfolding match_literal by blast
  then have "match_here (OneOrMore ClsSpace # [Literal w2, Boundary])
     (last_char (last_char None pre) w1) (ws @ w2 @ post)"
    unfolding match_plus in_class_space using t(2,3) by blast
  then have "match_here (Literal w1 # [OneOrMore ClsSpace, Literal w2, Boundary])
     (last_char None pre) (w1 @ ws @ w2 @ post)"
    unfolding match_literal by blast
  moreover have "at_boundary (last_char None pre) (w1 @ ws @ w2 @ post)"
    using t(4) boundary_before_word [OF assms(1,2)] by simp
  ultimately have "match_here [Boundary, Literal w1, OneOrMore ClsSpace, Literal w2, Boundary]
     (last_char None pre) (w1 @ ws @ w2 @ post)"
    by simp
  then show "re_search [Boundary, Literal w1, OneOrMore ClsSpace, Literal w2, Boundary] text"
    unfolding re_search_def search_iff using t(1) by blast
qed

lemma update_set_search:
  "re_search [Boundary, Literal ''UPDATE'', OneOrMore ClsSpace, OneOrMore ClsWord,
              OneOrMore ClsSpace, Literal ''SET'', Boundary] text
   \<longleftrightarrow> update_set_phrase text"
proof
  have u: "''UPDATE'' \<noteq> []" "is_word (hd ''UPDATE'')"
    and s: "''SET'' \<noteq> []" "is_word (last ''SET'')"
    by (simp_all add: is_word_def ascii_uppercase_def)
  {
    assume "re_search [Boundary, Literal ''UPDATE'', OneOrMore ClsSpace, OneOrMore ClsWord,
              OneOrMore ClsSpace, Literal ''SET'', Boundary] text"
    then obtain pre post where p: "text = pre @ post"
      "match_here [Boundary, Literal ''UPDATE'', OneOrMore ClsSpace, OneOrMore ClsWord,
              OneOrMore ClsSpace, Literal ''SET'', Boundary] (last_char None pre) post"
      unfolding re_search_def search_iff by blast
    from p(2) have b1: "at_boundary (last_char None pre) post"
      and m1: "match_here (Literal ''UPDATE'' # [OneOrMore ClsSpace, OneOrMore ClsWord,
              OneOrMore ClsSpace, Literal ''SET'', Boundary]) (last_char None pre) post"
      by simp_all
    from m1 obtain r1 where r1: "post = ''UPDATE'' @ r1"
      "match_here (OneOrMore ClsSpace # [OneOrMore ClsWord, OneOrMore ClsSpace,
         Literal ''SET'', Boundary]) (last_char (last_char None pre) ''UPDATE'') r1"
      unfolding match_literal by blast
    from r1(2) obtain ws1 r2 where r2: "r1 = ws1 @ r2" "ws1 \<noteq> []" "list_all is_space ws1"
      "match_here (OneOrMore ClsWord # [OneOrMore ClsSpace, Literal ''SET'', Boundary])
         (Some (last ws1)) r2"
      unfolding match_plus [of ClsSpace] in_class_space by blast
    from r2(4) obtain i r3 where r3: "r2 = i @ r3" "i \<noteq> []" "list_all is_word i"
      "match_here (OneOrMore ClsSpace # [Literal ''SET'', Boundary]) (Some (last i)) r3"
      unfolding match_plus [of ClsWord] in_class_word by blast
    from r3(4) obtain ws2 r4 where r4: "r3 = ws2 @ r4" "ws2 \<noteq> []" "list_all is_space ws2"
      "match_here (Literal ''SET'' # [Boundary]) (Some (last ws2)) r4"
      unfolding match_plus [of ClsSpace] in_class_space by blast
    from r4(4) obtain r5 where r5: "r4 = ''SET'' @ r5"
      "match_here [Boundary] (last_char (Some (last ws2)) ''SET'') r5"
      unfolding match_literal by blast
    from r5(2) have b2: "at_boundary (last_char (Some (last ws2)) ''SET'') r5" by simp
    have "\<not> ends_in_word pre"
      using b1 r1(1) boundary_before_word [OF u] by simp
    moreover have "\<not> starts_with_word r5"
      using b2 boundary_after_word [OF s] by simp
    moreover have "text = pre @ ''UPDATE'' @ ws1 @ i @ ws2 @ ''SET'' @ r5"
      using p(1) r1(1) r2(1) r3(1) r4(1) r5(1) by simp
    ultimately show "update_set_phrase text"
      unfolding update_set_phrase_def space_run_def is_identifier_def
      using r2(2,3) r3(2,3) r4(2,3) by blast
  }
  {
    assume "update_set_phrase text"
    then obtain pre ws1 i ws2 post where
      t: "text = pre @ ''UPDATE'' @ ws1 @ i @ ws2 @ ''SET'' @ post"
      and w1: "ws1 \<noteq> []" "list_all is_space ws1"
      and i: "i \<noteq> []" "list_all is_word i"
      and w2: "ws2 \<noteq> []" "list_all is_space ws2"
      and e: "\<not> ends_in_word pre" "\<not> starts_with_word post"
      unfolding update_set_phrase_def space_run_def is_identifier_def by blast
    have "match_here [Boundary] (last_char (Some (last ws2)) ''SET'') post"
      using e(2) boundary_after_word [OF s] by simp
    then have "match_here (Literal ''SET'' # [Boundary]) (Some (last ws2)) (''SET'' @ post)"
      unfolding match_literal by blast
    then have "match_here (OneOrMore ClsSpace # [Literal ''SET'', Boundary]) (Some (last i))
       (ws2 @ ''SET'' @ post)"
      unfolding match_plus [of ClsSpace] in_class_space using w2 by blast
    then have "match_here (OneOrMore ClsWord # [OneOrMore ClsSpace, Literal ''SET'', Boundary])
       (Some (last ws1)) (i @ ws2 @ ''SET'' @ post)"
      unfolding match_plus [of ClsWord] in_class_word using i by blast
    then have "match_here (OneOrMore ClsSpace # [OneOrMore ClsWord, OneOrMore ClsSpace,
         Literal ''SET'', Boundary]) (last_char (last_char None pre) ''UPDATE'')
       (ws1 @ i @ ws2 @ ''SET'' @ post)"
      unfolding match_plus [of ClsSpace] in_class_space using w1 by blast
    then have "match_here (Literal ''UPDATE'' # [OneOrMore ClsSpace, OneOrMore ClsWord,
         OneOrMore ClsSpace, Literal ''SET'', Boundary]) (last_char None pre)
       (''UPDATE'' @ ws1 @ i @ ws2 @ ''SET'' @ post)"
      unfolding match_literal by blast
    moreover have "at_boundary (last_char None pre) (''UPDATE'' @ ws1 @ i @ ws2 @ ''SET'' @ post)"
      using e(1) boundary_before_word [OF u] by simp
    ultimately have "match_here [Boundary, Literal ''UPDATE'', OneOrMore ClsSpace,
         OneOrMore ClsWord, OneOrMore ClsSpace, Literal ''SET'', Boundary] (last_char None pre)
       (''UPDATE'' @ ws1 @ i @ ws2 @ ''SET'' @ post)"
      by simp
    then show "re_search [Boundary, Literal ''UPDATE'', OneOrMore ClsSpace, OneOrMore ClsWord,
              OneOrMore ClsSpace, Literal ''SET'', Boundary] text"
      unfolding re_search_def search_iff using t by blast
  }
qed

lemma upper_letters_word: "c \<in> set ascii_uppercase \<Longrightarrow> is_word c"
  by (simp add: is_word_def)

lemma patterns_iff_clause:
  "list_ex (\<lambda>pattern. re_search pattern text) dangerous_patterns
   \<longleftrightarrow> embedded_dangerous_clause text"
proof -
  have w: "is_word CHR ''D''" "is_word CHR ''T''" "is_word CHR ''E''" "is_word CHR ''I''"
    "is_word CHR ''C''" "is_word CHR ''A''" "is_word CHR ''M''" "is_word CHR ''O''"
    by (simp_all add: is_word_def ascii_uppercase_def)
  show ?thesis
    unfolding dangerous_patterns_def embedded_dangerous_clause_def
    by (simp add: two_word_search update_set_search w)
qed

lemma drop_table_embedded:
  assumes "occurs_in ''; DROP TABLE x;'' sql"
  shows "embedded_dangerous_clause (strip (upper sql))"
proof -
  obtain a b where "sql = a @ ''; DROP TABLE x;'' @ b"
    using assms unfolding occurs_in_def by blast
  moreover have "upper ''; DROP TABLE x;'' = ''; DROP TABLE X;''" by code_simp
  ultimately have u: "upper sql = upper a @ ''; DROP TABLE X;'' @ upper b"
    by (simp add: upper_append del: append.simps)
  have "\<not> is_space (hd ''; DROP TABLE X;'')" "\<not> is_space (last ''; DROP TABLE X;'')"
    by (simp_all add: is_space_def whitespace_def)
  then obtain a' b' where "strip (upper sql) = a' @ ''; DROP TABLE X;'' @ b'"
    unfolding u using strip_keeps [of "''; DROP TABLE X;''"] by blast
  then have t: "strip (upper sql) = (a' @ ''; '') @ ''DROP'' @ '' '' @ ''TABLE'' @ ('' X;'' @ b')"
    by simp
  have "space_run '' ''" by (simp add: space_run_def is_space_def whitespace_def)
  moreover have "\<not> ends_in_word (a' @ ''; '')"
    by (simp add: ends_in_word_def is_word_def ascii_lowercase_def ascii_uppercase_def digits_def)
  moreover have "\<not> starts_with_word ('' X;'' @ b')"
    by (simp add: starts_with_word_def is_word_def ascii_lowercase_def ascii_uppercase_def
        digits_def)
  ultimately have "two_word_phrase ''DROP'' ''TABLE'' (strip (upper sql))"
    unfolding two_word_phrase_def using t by blast
  then show ?thesis by (simp add: embedded_dangerous_clause_def)
qed

section \<open>Facts about the keyword sets and the session\<close>

lemma dangerous_not_allowed:
  "k \<in> DANGEROUS_OPERATIONS \<Longrightarrow> k \<notin> READONLY_OPERATIONS \<and> k \<notin> WRITE_OPERATIONS"
  unfolding DANGEROUS_OPERATIONS_def READONLY_OPERATIONS_def WRITE_OPERATIONS_def
  by auto

lemma write_not_readonly:
  "k \<in> WRITE_OPERATIONS \<union> DANGEROUS_OPERATIONS \<Longrightarrow> k \<notin> READONLY_OPERATIONS"
  unfolding DANGEROUS_OPERATIONS_def READONLY_OPERATIONS_def WRITE_OPERATIONS_def
  by auto

lemma allowed_not_forbidden:
  "k \<in> READONLY_OPERATIONS \<Longrightarrow> k \<notin> WRITE_OPERATIONS \<and> k \<notin> DANGEROUS_OPERATIONS"
  "k \<in> WRITE_OPERATIONS \<Longrightarrow> k \<notin> DANGEROUS_OPERATIONS"
  unfolding DANGEROUS_OPERATIONS_def READONLY_OPERATIONS_def WRITE_OPERATIONS_def
  by auto

lemma split_nil: "extract_first_keyword [] = []"
  by (simp add: extract_first_keyword_def py_split_def)

lemma empty_not_keyword:
  "[] \<notin> READONLY_OPERATIONS" "[] \<notin> WRITE_OPERATIONS"
  by (simp_all add: READONLY_OPERATIONS_def WRITE_OPERATIONS_def)

lemma reason_names_mode:
  "m \<noteq> FULL_ACCESS \<Longrightarrow> reason_mode (get_error_message sql m) = Some m"
  by (cases m) (simp_all add: get_error_message_def Let_def)

lemma reason_names_keyword:
  "m \<noteq> FULL_ACCESS \<Longrightarrow>
   reason_keyword (get_error_message sql m) = Some (extract_first_keyword (strip (upper sql)))"
  by (cases m) (simp_all add: get_error_message_def Let_def)

lemma full_access_permits: "validate_sql sql FULL_ACCESS"
  by (simp add: validate_sql_def)

lemma keyword_retrieval:
  assumes "extract_first_keyword (strip (upper sql)) \<in> set retrieval_prefixes"
  shows "is_retrieval sql"
proof -
  have "extract_first_keyword (strip (upper sql)) \<noteq> []"
    using assms by (auto simp: retrieval_prefixes_def)
  then have "startswith (strip (upper sql)) (extract_first_keyword (strip (upper sql)))"
    by (rule first_keyword_prefix)
  then show ?thesis using assms unfolding is_retrieval_def list_ex_iff by blast
qed

lemma get_connection_opens:
  assumes "session_opens cfg be"
  shows "get_connection cfg be body =
     (case body (session_history cfg) of
        (tb, rb) \<Rightarrow>
          ([Connect] @ fst (configure_session cfg be) @
           [Commit, Log (Connected (security_mode cfg))] @ tb @
           (case rb of Inl (DatabaseError e) \<Rightarrow> [Log (ConnectionError e)] | _ \<Rightarrow> []) @
           [Close, Log ConnectionClosed],
           rb))"
proof -
  obtain t1 r1 where c: "configure_session cfg be = (t1, r1)"
    by (cases "configure_session cfg be")
  then have "r1 = None" "db_connect be = None" "db_commit be (session_history cfg) = None"
    using assms by (simp_all add: session_opens_def)
  then show ?thesis using c by (simp add: get_connection_def)
qed

lemma py_slice_to_nonneg: "0 \<le> n \<Longrightarrow> py_slice_to xs n = take (nat n) xs"
  by (simp add: py_slice_to_def)

lemma map_dict: "map dict rs = rs"
  by (induction rs) (simp_all add: dict_def)

lemma run_retrieval:
  assumes "is_retrieval sql" "db_execute be hist sql ps = Inr cur" "fetchall cur = Inr rs"
  shows "run_statement cfg be sql ps hist =
     (if int (length rs) > max_result_rows cfg
      then ([Execute sql ps, Fetchall, Log (ResultTruncated (max_result_rows cfg)),
             Log (QuerySucceeded (length (py_slice_to rs (max_result_rows cfg))))],
            Inr (py_slice_to rs (max_result_rows cfg)))
      else ([Execute sql ps, Fetchall, Log (QuerySucceeded (length rs))], Inr rs))"
  using assms by (simp add: run_statement_def map_dict)

lemma run_mutation:
  assumes "\<not> is_retrieval sql" "db_execute be hist sql ps = Inr cur"
    "db_commit be (hist @ [sql]) = None"
  shows "run_statement cfg be sql ps hist =
     ([Execute sql ps, Commit, Log (OperationSucceeded (rowcount cur))],
      Inr [status_record (rowcount cur)])"
  using assms by (simp add: run_statement_def)

lemma execute_query_opens:
  assumes "validate_sql sql (security_mode cfg)" "session_opens cfg be"
  shows "execute_query cfg be sql ps =
     (case run_statement cfg be sql ps (session_history cfg) of
        (tb, rb) \<Rightarrow>
          (query_log cfg sql @ [Connect] @ fst (configure_session cfg be) @
           [Commit, Log (Connected (security_mode cfg))] @ tb @
           (case rb of Inl (DatabaseError e) \<Rightarrow> [Log (ConnectionError e)] | _ \<Rightarrow> []) @
           [Close, Log ConnectionClosed],
           rb))"
  using assms(1)
  by (simp add: execute_query_def get_connection_opens [OF assms(2)] split: prod.splits)

lemma demo_session_opens: "session_opens (demo_config m n) demo_backend"
  by (cases m)
    (simp_all add: session_opens_def configure_session_def session_history_def demo_config_def
      demo_backend_def is_readonly_mode_def)

section \<open>The classifier\<close>

text \<open>
  C1. A statement whose leading keyword (the first whitespace-delimited token of the
  upper-cased, trimmed text) is one of the dangerous operations is denied in read-only
  mode and in limited-write mode, and permitted in full-access mode.
\<close>

theorem dangerous_keyword_denied:
  assumes "extract_first_keyword (strip (upper sql)) \<in> DANGEROUS_OPERATIONS"
  shows "\<not> validate_sql sql READONLY \<and> \<not> validate_sql sql LIMITED_WRITE
         \<and> validate_sql sql FULL_ACCESS"
  using dangerous_not_allowed [OF assms]
  by (simp add: validate_sql_def validate_readonly_def validate_limited_write_def)

theorem dangerous_keyword_denied_witness:
  "extract_first_keyword (strip (upper ''drop table t'')) \<in> DANGEROUS_OPERATIONS
   \<and> \<not> validate_sql ''drop table t'' READONLY
   \<and> \<not> validate_sql ''drop table t'' LIMITED_WRITE
   \<and> validate_sql ''drop table t'' FULL_ACCESS"
proof -
  have h: "extract_first_keyword (strip (upper ''drop table t'')) \<in> DANGEROUS_OPERATIONS"
    by code_simp
  from dangerous_keyword_denied [OF h] h show ?thesis by simp
qed

text \<open>
  C2. The decision in read-only mode, for a statement of ASCII characters. A statement
  whose leading keyword is not a read-only operation is denied. A statement led by
  \<open>SELECT\<close> is denied exactly when its normalized text holds one of the seven whole-word
  phrases; so a \<open>SELECT\<close> statement containing \<open>; DROP TABLE x;\<close> is denied. A
  statement led by another read-only keyword is denied exactly when a write or
  dangerous keyword occurs in the normalized text as a substring.
\<close>

theorem readonly_decision:
  assumes "list_all is_ascii sql"
  shows "let text = strip (upper sql); k = extract_first_keyword text in
     (k \<notin> READONLY_OPERATIONS \<longrightarrow> \<not> validate_sql sql READONLY) \<and>
     (k = ''SELECT'' \<longrightarrow>
        (\<not> validate_sql sql READONLY) = embedded_dangerous_clause text) \<and>
     (k = ''SELECT'' \<and> occurs_in ''; DROP TABLE x;'' sql \<longrightarrow> \<not> validate_sql sql READONLY) \<and>
     (k \<in> READONLY_OPERATIONS \<and> k \<noteq> ''SELECT'' \<longrightarrow>
        (\<not> validate_sql sql READONLY) =
        (\<exists>forbidden \<in> WRITE_OPERATIONS \<union> DANGEROUS_OPERATIONS. occurs_in forbidden text))"
proof -
  have s: "''SELECT'' \<in> READONLY_OPERATIONS" by (simp add: READONLY_OPERATIONS_def)
  show ?thesis
    using s drop_table_embedded [of sql]
    by (simp add: Let_def validate_sql_def validate_readonly_def patterns_iff_clause contains_iff)
qed

theorem readonly_decision_witness:
  "list_all is_ascii ''insert into t values (1)''
   \<and> extract_first_keyword (strip (upper ''insert into t values (1)'')) \<notin> READONLY_OPERATIONS
   \<and> \<not> validate_sql ''insert into t values (1)'' READONLY
   \<and> list_all is_ascii ''select 1; DROP TABLE x;''
   \<and> extract_first_keyword (strip (upper ''select 1; DROP TABLE x;'')) = ''SELECT''
   \<and> occurs_in ''; DROP TABLE x;'' ''select 1; DROP TABLE x;''
   \<and> embedded_dangerous_clause (strip (upper ''select 1; DROP TABLE x;''))
   \<and> \<not> validate_sql ''select 1; DROP TABLE x;'' READONLY
   \<and> list_all is_ascii ''explain delete from t''
   \<and> extract_first_keyword (strip (upper ''explain delete from t'')) \<in> READONLY_OPERATIONS
   \<and> extract_first_keyword (strip (upper ''explain delete from t'')) \<noteq> ''SELECT''
   \<and> (\<exists>forbidden \<in> WRITE_OPERATIONS \<union> DANGEROUS_OPERATIONS.
         occurs_in forbidden (strip (upper ''explain delete from t'')))
   \<and> \<not> validate_sql ''explain delete from t'' READONLY"
proof -
  have h: "list_all is_ascii ''insert into t values (1)''"
    "list_all is_ascii ''select 1; DROP TABLE x;''"
    "list_all is_ascii ''explain delete from t''"
    by code_simp+
  have a: "extract_first_keyword (strip (upper ''insert into t values (1)'')) \<notin> READONLY_OPERATIONS"
    by code_simp
  have b: "extract_first_keyword (strip (upper ''select 1; DROP TABLE x;'')) = ''SELECT''"
    by code_simp
  have c: "occurs_in ''; DROP TABLE x;'' ''select 1; DROP TABLE x;''"
    unfolding contains_iff [symmetric] by code_simp
  have d: "extract_first_keyword (strip (upper ''explain delete from t'')) \<in> READONLY_OPERATIONS"
    "extract_first_keyword (strip (upper ''explain delete from t'')) \<noteq> ''SELECT''"
    "\<not> validate_sql ''explain delete from t'' READONLY"
    by code_simp+
  show ?thesis
    using h a b c d readonly_decision [OF h(1)] readonly_decision [OF h(2)]
      readonly_decision [OF h(3)]
    unfolding Let_def by blast
qed

text \<open>
  C3. In limited-write mode a statement is permitted exactly when its leading keyword is
  a read-only or a write operation and no dangerous keyword occurs in the normalized
  text as a substring; \<open>UPDATE t SET c = 1\<close> is permitted and \<open>DROP TABLE t\<close> is
  denied.
\<close>

theorem limited_write_decision:
  "validate_sql sql LIMITED_WRITE =
     (extract_first_keyword (strip (upper sql)) \<in> READONLY_OPERATIONS \<union> WRITE_OPERATIONS \<and>
      \<not> (\<exists>dangerous \<in> DANGEROUS_OPERATIONS. occurs_in dangerous (strip (upper sql))))
   \<and> validate_sql ''UPDATE t SET c = 1'' LIMITED_WRITE
   \<and> \<not> validate_sql ''DROP TABLE t'' LIMITED_WRITE"
proof -
  have a: "validate_sql ''UPDATE t SET c = 1'' LIMITED_WRITE" by code_simp
  have b: "\<not> validate_sql ''DROP TABLE t'' LIMITED_WRITE" by code_simp
  have c: "validate_sql sql LIMITED_WRITE =
     (extract_first_keyword (strip (upper sql)) \<in> READONLY_OPERATIONS \<union> WRITE_OPERATIONS \<and>
      \<not> (\<exists>dangerous \<in> DANGEROUS_OPERATIONS. occurs_in dangerous (strip (upper sql))))"
    by (auto simp: validate_sql_def validate_limited_write_def contains_iff Let_def)
  from a b c show ?thesis by blast
qed

theorem limited_write_decision_witness:
  "validate_sql ''insert into t values (1)'' LIMITED_WRITE
   \<and> extract_first_keyword (strip (upper ''insert into t values (1)''))
       \<in> READONLY_OPERATIONS \<union> WRITE_OPERATIONS
   \<and> \<not> (\<exists>dangerous \<in> DANGEROUS_OPERATIONS.
           occurs_in dangerous (strip (upper ''insert into t values (1)'')))"
proof -
  have "validate_sql ''insert into t values (1)'' LIMITED_WRITE" by code_simp
  then show ?thesis using limited_write_decision [of "''insert into t values (1)''"] by blast
qed

text \<open>
  C8, amended. A statement that is empty or holds whitespace only has an empty normalized
  text and an empty leading keyword; it is denied in read-only mode and in limited-write
  mode, and permitted in full-access mode, which permits every statement.
\<close>

theorem empty_statement_decision:
  assumes "list_all is_space sql"
  shows "strip (upper sql) = []
         \<and> extract_first_keyword (strip (upper sql)) = []
         \<and> \<not> validate_sql sql READONLY \<and> \<not> validate_sql sql LIMITED_WRITE
         \<and> validate_sql sql FULL_ACCESS"
proof -
  have e: "strip (upper sql) = []" using assms by (simp add: normalized_empty_iff)
  then show ?thesis
    using empty_not_keyword
    by (simp add: validate_sql_def validate_readonly_def validate_limited_write_def split_nil)
qed

theorem empty_statement_decision_witness:
  "list_all is_space ''  ''
   \<and> strip (upper ''  '') = []
   \<and> extract_first_keyword (strip (upper ''  '')) = []
   \<and> \<not> validate_sql ''  '' READONLY \<and> \<not> validate_sql ''  '' LIMITED_WRITE
   \<and> validate_sql ''  '' FULL_ACCESS"
proof -
  have h: "list_all is_space ''  ''" by code_simp
  from empty_statement_decision [OF h] h show ?thesis by blast
qed

text \<open>
  Denial in every mode fails: full-access mode permits the statement of two blanks.
\<close>

theorem empty_statement_full_access_counterexample:
  "list_all is_space ''  '' \<and> strip (upper ''  '') = []
   \<and> extract_first_keyword (strip (upper ''  '')) = []
   \<and> validate_sql ''  '' FULL_ACCESS"
  by code_simp

section \<open>The mediator\<close>

text \<open>
  C4. A statement whose leading keyword is a write or a dangerous operation makes
  \<open>execute_safe_query\<close> raise, whatever the configured mode is, full-access included:
  the forced read-only validation fails, and nothing reaches the database (the trace is
  empty).
\<close>

theorem safe_query_denies_writes:
  assumes "extract_first_keyword (strip (upper sql)) \<in> WRITE_OPERATIONS \<union> DANGEROUS_OPERATIONS"
  shows "execute_safe_query cfg be sql ps = ([], Inl SafeQueryNotReadonly)"
  using write_not_readonly [OF assms]
  by (simp add: execute_safe_query_def validate_sql_def validate_readonly_def)

theorem safe_query_denies_writes_witness:
  "extract_first_keyword (strip (upper ''update t set c = 1''))
     \<in> WRITE_OPERATIONS \<union> DANGEROUS_OPERATIONS
   \<and> execute_safe_query (demo_config FULL_ACCESS 10) demo_backend ''update t set c = 1'' None
       = ([], Inl SafeQueryNotReadonly)"
proof -
  have h: "extract_first_keyword (strip (upper ''update t set c = 1''))
     \<in> WRITE_OPERATIONS \<union> DANGEROUS_OPERATIONS"
    by code_simp
  from safe_query_denies_writes [OF h] h show ?thesis by simp
qed

text \<open>
  C7, amended. When the validator denies a statement under the configured mode,
  \<open>execute_query\<close> raises the policy violation carrying the reason of
  \<open>get_error_message\<close>, and the trace is empty: no connection is opened. The reason names
  the configured mode and the statement's leading keyword, and its category follows
  from the leading keyword alone: in read-only mode "write operation forbidden" for a
  write keyword, "dangerous operation forbidden" for a dangerous keyword and
  "unsupported operation" for any other; in limited-write mode "dangerous operation
  forbidden" for a dangerous keyword and "unsupported operation" for any other. So a
  statement denied for what follows a permitted leading keyword is reported as an
  unsupported operation naming that keyword. In read-only mode
  \<open>INSERT INTO t VALUES (1)\<close> is denied with the reason "write operation forbidden",
  naming \<open>INSERT\<close>.
\<close>

theorem denial_raises_policy_violation:
  "let k = extract_first_keyword (strip (upper sql)) in
   (\<not> validate_sql sql (security_mode cfg) \<longrightarrow>
      execute_query cfg be sql ps =
        ([], Inl (PolicyViolation (get_error_message sql (security_mode cfg)))) \<and>
      reason_mode (get_error_message sql (security_mode cfg)) = Some (security_mode cfg) \<and>
      reason_keyword (get_error_message sql (security_mode cfg)) = Some k)
   \<and> get_error_message sql READONLY =
        (if k \<in> WRITE_OPERATIONS then ReadonlyWriteForbidden k
         else if k \<in> DANGEROUS_OPERATIONS then ReadonlyDangerousForbidden k
         else ReadonlyUnsupported k)
   \<and> get_error_message sql LIMITED_WRITE =
        (if k \<in> DANGEROUS_OPERATIONS then LimitedDangerousForbidden k
         else LimitedUnsupported k)
   \<and> (k \<in> READONLY_OPERATIONS \<longrightarrow> get_error_message sql READONLY = ReadonlyUnsupported k)
   \<and> (k \<in> READONLY_OPERATIONS \<union> WRITE_OPERATIONS \<longrightarrow>
        get_error_message sql LIMITED_WRITE = LimitedUnsupported k)
   \<and> (security_mode cfg = READONLY \<longrightarrow>
        execute_query cfg be ''INSERT INTO t VALUES (1)'' ps =
          ([], Inl (PolicyViolation (ReadonlyWriteForbidden ''INSERT''))))"
proof -
  have a: "\<not> validate_sql ''INSERT INTO t VALUES (1)'' READONLY" by code_simp
  have b: "get_error_message ''INSERT INTO t VALUES (1)'' READONLY
             = ReadonlyWriteForbidden ''INSERT''"
    by code_simp
  have c: "security_mode cfg \<noteq> FULL_ACCESS" if "\<not> validate_sql sql (security_mode cfg)"
    using that full_access_permits by metis
  have d: "\<not> validate_sql sql (security_mode cfg) \<longrightarrow>
      execute_query cfg be sql ps =
        ([], Inl (PolicyViolation (get_error_message sql (security_mode cfg)))) \<and>
      reason_mode (get_error_message sql (security_mode cfg)) = Some (security_mode cfg) \<and>
      reason_keyword (get_error_message sql (security_mode cfg)) =
        Some (extract_first_keyword (strip (upper sql)))"
    using c reason_names_mode reason_names_keyword by (simp add: execute_query_def)
  have e: "security_mode cfg = READONLY \<longrightarrow>
        execute_query cfg be ''INSERT INTO t VALUES (1)'' ps =
          ([], Inl (PolicyViolation (ReadonlyWriteForbidden ''INSERT'')))"
    using a b by (simp add: execute_query_def)
  have f: "get_error_message sql READONLY =
        (if extract_first_keyword (strip (upper sql)) \<in> WRITE_OPERATIONS
         then ReadonlyWriteForbidden (extract_first_keyword (strip (upper sql)))
         else if extract_first_keyword (strip (upper sql)) \<in> DANGEROUS_OPERATIONS
         then ReadonlyDangerousForbidden (extract_first_keyword (strip (upper sql)))
         else ReadonlyUnsupported (extract_first_keyword (strip (upper sql))))"
    "get_error_message sql LIMITED_WRITE =
        (if extract_first_keyword (strip (upper sql)) \<in> DANGEROUS_OPERATIONS
         then LimitedDangerousForbidden (extract_first_keyword (strip (upper sql)))
         else LimitedUnsupported (extract_first_keyword (strip (upper sql))))"
    by (simp_all add: get_error_message_def Let_def)
  have g: "extract_first_keyword (strip (upper sql)) \<in> READONLY_OPERATIONS \<longrightarrow>
        get_error_message sql READONLY = ReadonlyUnsupported (extract_first_keyword (strip (upper sql)))"
    "extract_first_keyword (strip (upper sql)) \<in> READONLY_OPERATIONS \<union> WRITE_OPERATIONS \<longrightarrow>
        get_error_message sql LIMITED_WRITE = LimitedUnsupported (extract_first_keyword (strip (upper sql)))"
    using allowed_not_forbidden [of "extract_first_keyword (strip (upper sql))"]
    by (auto simp: f)
  show ?thesis unfolding Let_def using d e f g by blast
qed

theorem denial_raises_policy_violation_witness:
  "\<not> validate_sql ''delete from t'' (security_mode (demo_config LIMITED_WRITE 10))
   \<and> execute_query (demo_config LIMITED_WRITE 10) demo_backend ''delete from t'' None =
        ([], Inl (PolicyViolation (LimitedDangerousForbidden ''DELETE'')))
   \<and> \<not> validate_sql ''select 1; DROP TABLE x;'' (security_mode (demo_config READONLY 10))
   \<and> extract_first_keyword (strip (upper ''select 1; DROP TABLE x;'')) \<in> READONLY_OPERATIONS
   \<and> execute_query (demo_config READONLY 10) demo_backend ''select 1; DROP TABLE x;'' None =
        ([], Inl (PolicyViolation
           (ReadonlyUnsupported (extract_first_keyword (strip (upper ''select 1; DROP TABLE x;''))))))
   \<and> extract_first_keyword (strip (upper ''select * from created_items''))
        \<in> READONLY_OPERATIONS \<union> WRITE_OPERATIONS
   \<and> get_error_message ''select * from created_items'' LIMITED_WRITE =
        LimitedUnsupported (extract_first_keyword (strip (upper ''select * from created_items'')))
   \<and> security_mode (demo_config READONLY 10) = READONLY
   \<and> execute_query (demo_config READONLY 10) demo_backend ''INSERT INTO t VALUES (1)'' None =
        ([], Inl (PolicyViolation (ReadonlyWriteForbidden ''INSERT'')))"
proof -
  let ?l = "demo_config LIMITED_WRITE 10" and ?r = "demo_config READONLY 10"
  have m: "security_mode ?l = LIMITED_WRITE" "security_mode ?r = READONLY"
    by (simp_all add: demo_config_def)
  have "\<not> validate_sql ''delete from t'' LIMITED_WRITE"
    "\<not> validate_sql ''select 1; DROP TABLE x;'' READONLY"
    by code_simp+
  then have a: "\<not> validate_sql ''delete from t'' (security_mode ?l)"
    "\<not> validate_sql ''select 1; DROP TABLE x;'' (security_mode ?r)"
    using m by simp_all
  have b: "get_error_message ''delete from t'' LIMITED_WRITE = LimitedDangerousForbidden ''DELETE''"
    by code_simp
  have k: "extract_first_keyword (strip (upper ''select 1; DROP TABLE x;'')) \<in> READONLY_OPERATIONS"
    "extract_first_keyword (strip (upper ''select * from created_items''))
        \<in> READONLY_OPERATIONS \<union> WRITE_OPERATIONS"
    by code_simp+
  note t1 = denial_raises_policy_violation [of "''delete from t''" ?l demo_backend None, unfolded Let_def]
  note t2 = denial_raises_policy_violation [of "''select 1; DROP TABLE x;''" ?r demo_backend None, unfolded Let_def]
  note t3 = denial_raises_policy_violation [of "''select * from created_items''" ?r demo_backend None, unfolded Let_def]
  have e1: "execute_query ?l demo_backend ''delete from t'' None =
        ([], Inl (PolicyViolation (LimitedDangerousForbidden ''DELETE'')))"
    using t1 a(1) m(1) b by simp
  have "get_error_message ''select 1; DROP TABLE x;'' READONLY =
      ReadonlyUnsupported (extract_first_keyword (strip (upper ''select 1; DROP TABLE x;'')))"
    using t2 k(1) by blast
  moreover have "execute_query ?r demo_backend ''select 1; DROP TABLE x;'' None =
        ([], Inl (PolicyViolation (get_error_message ''select 1; DROP TABLE x;'' (security_mode ?r))))"
    using t2 a(2) by blast
  ultimately have e2: "execute_query ?r demo_backend ''select 1; DROP TABLE x;'' None =
        ([], Inl (PolicyViolation
           (ReadonlyUnsupported (extract_first_keyword (strip (upper ''select 1; DROP TABLE x;''))))))"
    using m(2) by simp
  have e3: "get_error_message ''select * from created_items'' LIMITED_WRITE =
        LimitedUnsupported (extract_first_keyword (strip (upper ''select * from created_items'')))"
    using t3 k(2) by blast
  have e4: "execute_query ?r demo_backend ''INSERT INTO t VALUES (1)'' None =
        ([], Inl (PolicyViolation (ReadonlyWriteForbidden ''INSERT'')))"
    using t3 m(2) by blast
  from a k m(2) e1 e2 e3 e4 show ?thesis by blast
qed

text \<open>
  Naming the offending keyword or category fails: in read-only mode
  \<open>select 1; DROP TABLE x;\<close> is denied for the embedded \<open>DROP TABLE\<close>, and the reason
  is "unsupported operation" naming \<open>SELECT\<close>, a read-only operation that is permitted
  on its own.
\<close>

theorem reason_names_permitted_keyword_counterexample:
  "\<not> validate_sql ''select 1; DROP TABLE x;'' READONLY
   \<and> validate_sql ''select 1'' READONLY
   \<and> ''SELECT'' \<in> READONLY_OPERATIONS
   \<and> execute_query (demo_config READONLY 10) demo_backend ''select 1; DROP TABLE x;'' None =
        ([], Inl (PolicyViolation (ReadonlyUnsupported ''SELECT'')))"
  by code_simp

text \<open>
  C10. \<open>execute_safe_query\<close> validates under the configured mode as well: the statement
  \<open>SELECT * FROM created_items\<close> passes the read-only validation, and still
  \<open>execute_safe_query\<close> raises when the configured mode is limited-write, because
  \<open>execute_query\<close> validates again and the text contains \<open>CREATE\<close>.
\<close>

theorem safe_query_revalidates:
  "validate_sql ''SELECT * FROM created_items'' READONLY
   \<and> (security_mode cfg = LIMITED_WRITE \<longrightarrow>
        execute_safe_query cfg be ''SELECT * FROM created_items'' ps =
          ([], Inl (PolicyViolation (LimitedUnsupported ''SELECT''))))"
proof -
  have a: "validate_sql ''SELECT * FROM created_items'' READONLY" by code_simp
  have b: "\<not> validate_sql ''SELECT * FROM created_items'' LIMITED_WRITE" by code_simp
  have c: "get_error_message ''SELECT * FROM created_items'' LIMITED_WRITE
             = LimitedUnsupported ''SELECT''"
    by code_simp
  show ?thesis using a b c by (simp add: execute_safe_query_def execute_query_def)
qed

theorem safe_query_revalidates_witness:
  "security_mode (demo_config LIMITED_WRITE 10) = LIMITED_WRITE
   \<and> validate_sql ''SELECT * FROM created_items'' READONLY
   \<and> execute_safe_query (demo_config LIMITED_WRITE 10) demo_backend
        ''SELECT * FROM created_items'' None =
          ([], Inl (PolicyViolation (LimitedUnsupported ''SELECT'')))"
proof -
  have m: "security_mode (demo_config LIMITED_WRITE 10) = LIMITED_WRITE"
    by (simp add: demo_config_def)
  show ?thesis
    using m safe_query_revalidates [of "demo_config LIMITED_WRITE 10" demo_backend None]
    by simp
qed

text \<open>
  C6. A permitted retrieval statement, on a session that opens and a database that
  answers the rows \<open>rs\<close>, with a row ceiling \<open>N = max_result_rows\<close> that is not
  negative: when there are more than \<open>N\<close> rows, the call returns the first \<open>N\<close> rows
  in the database's order, with no error, and the log records the truncation; when
  there are \<open>N\<close> rows or fewer, it returns all of them unchanged.
\<close>

theorem result_rows_truncated:
  assumes "validate_sql sql (security_mode cfg)" "is_retrieval sql" "session_opens cfg be"
    "db_execute be (session_history cfg) sql ps = Inr cur" "fetchall cur = Inr rs"
    "0 \<le> max_result_rows cfg"
  shows "(int (length rs) > max_result_rows cfg \<longrightarrow>
            snd (execute_query cfg be sql ps) = Inr (take (nat (max_result_rows cfg)) rs) \<and>
            int (length (take (nat (max_result_rows cfg)) rs)) = max_result_rows cfg \<and>
            Log (ResultTruncated (max_result_rows cfg)) \<in> set (fst (execute_query cfg be sql ps)))
       \<and> (int (length rs) \<le> max_result_rows cfg \<longrightarrow>
            snd (execute_query cfg be sql ps) = Inr rs)"
proof -
  have "execute_query cfg be sql ps =
     (case run_statement cfg be sql ps (session_history cfg) of
        (tb, rb) \<Rightarrow>
          (query_log cfg sql @ [Connect] @ fst (configure_session cfg be) @
           [Commit, Log (Connected (security_mode cfg))] @ tb @
           (case rb of Inl (DatabaseError e) \<Rightarrow> [Log (ConnectionError e)] | _ \<Rightarrow> []) @
           [Close, Log ConnectionClosed],
           rb))"
    using assms(1) by (simp add: execute_query_def get_connection_opens [OF assms(3)] split: prod.splits)
  then show ?thesis
    unfolding run_retrieval [OF assms(2,4,5)]
    using assms(6) by (auto simp: py_slice_to_nonneg)
qed

theorem result_rows_truncated_witness:
  "validate_sql ''select n from t'' (security_mode (demo_config READONLY 2))
   \<and> is_retrieval ''select n from t''
   \<and> session_opens (demo_config READONLY 2) demo_backend
   \<and> 0 \<le> max_result_rows (demo_config READONLY 2)
   \<and> int (length demo_rows) > max_result_rows (demo_config READONLY 2)
   \<and> snd (execute_query (demo_config READONLY 2) demo_backend ''select n from t'' None)
       = Inr [[(''n'', PyInt 1)], [(''n'', PyInt 2)]]
   \<and> int (length demo_rows) \<le> max_result_rows (demo_config READONLY 3)
   \<and> snd (execute_query (demo_config READONLY 3) demo_backend ''select n from t'' None)
       = Inr demo_rows"
proof -
  have m: "security_mode (demo_config READONLY n) = READONLY"
    "max_result_rows (demo_config READONLY n) = n" for n
    by (simp_all add: demo_config_def)
  have "validate_sql ''select n from t'' READONLY" by code_simp
  then have v: "validate_sql ''select n from t'' (security_mode (demo_config READONLY n))" for n
    using m by simp
  have r: "is_retrieval ''select n from t''" by code_simp
  have x: "db_execute demo_backend h s None = Inr \<lparr>fetchall = Inr demo_rows, rowcount = 3\<rparr>"
    for h s
    by (simp add: demo_backend_def)
  have f: "fetchall \<lparr>fetchall = Inr demo_rows, rowcount = 3\<rparr> = Inr demo_rows" by simp
  have p: "(0::int) \<le> max_result_rows (demo_config READONLY 2)"
    "(0::int) \<le> max_result_rows (demo_config READONLY 3)"
    using m by simp_all
  show ?thesis
    using v [of 2] r demo_session_opens [of READONLY 2] m
      result_rows_truncated [OF v r demo_session_opens x f p(1)]
      result_rows_truncated [OF v r demo_session_opens x f p(2)]
    by (simp add: demo_rows_def)
qed

text \<open>
  C9, amended. A permitted statement, on a session that opens and a database that
  accepts the statement. \<open>execute_query\<close> branches on whether the upper-cased, trimmed
  text starts with one of \<open>SELECT\<close>, \<open>WITH\<close>, \<open>SHOW\<close>, \<open>DESCRIBE\<close>, \<open>EXPLAIN\<close> as
  a plain prefix, which it does whenever the leading keyword is one of the five. If it
  does and the rows can be fetched, the result is the sequence of rows, truncated to
  the row ceiling when longer, and the statement is not committed. If it does not, the
  transaction is committed and, the commit succeeding, the result is the single status
  record with the affected-row count.
\<close>

theorem execute_branches_on_prefix:
  assumes "validate_sql sql (security_mode cfg)" "session_opens cfg be"
    "db_execute be (session_history cfg) sql ps = Inr cur"
  shows "(is_retrieval sql \<and> fetchall cur = Inr rs \<longrightarrow>
            execute_query cfg be sql ps =
              (if int (length rs) > max_result_rows cfg
               then (query_log cfg sql @ [Connect] @ fst (configure_session cfg be) @
                     [Commit, Log (Connected (security_mode cfg)), Execute sql ps, Fetchall,
                      Log (ResultTruncated (max_result_rows cfg)),
                      Log (QuerySucceeded (length (py_slice_to rs (max_result_rows cfg)))),
                      Close, Log ConnectionClosed],
                     Inr (py_slice_to rs (max_result_rows cfg)))
               else (query_log cfg sql @ [Connect] @ fst (configure_session cfg be) @
                     [Commit, Log (Connected (security_mode cfg)), Execute sql ps, Fetchall,
                      Log (QuerySucceeded (length rs)), Close, Log ConnectionClosed],
                     Inr rs)))
       \<and> (\<not> is_retrieval sql \<and> db_commit be (session_history cfg @ [sql]) = None \<longrightarrow>
            execute_query cfg be sql ps =
              (query_log cfg sql @ [Connect] @ fst (configure_session cfg be) @
               [Commit, Log (Connected (security_mode cfg)), Execute sql ps, Commit,
                Log (OperationSucceeded (rowcount cur)), Close, Log ConnectionClosed],
               Inr [status_record (rowcount cur)]))
       \<and> (extract_first_keyword (strip (upper sql)) \<in> set retrieval_prefixes \<longrightarrow>
            is_retrieval sql)"
proof -
  note e = execute_query_opens [OF assms(1,2), of ps]
  have a: "execute_query cfg be sql ps =
              (if int (length rs) > max_result_rows cfg
               then (query_log cfg sql @ [Connect] @ fst (configure_session cfg be) @
                     [Commit, Log (Connected (security_mode cfg)), Execute sql ps, Fetchall,
                      Log (ResultTruncated (max_result_rows cfg)),
                      Log (QuerySucceeded (length (py_slice_to rs (max_result_rows cfg)))),
                      Close, Log ConnectionClosed],
                     Inr (py_slice_to rs (max_result_rows cfg)))
               else (query_log cfg sql @ [Connect] @ fst (configure_session cfg be) @
                     [Commit, Log (Connected (security_mode cfg)), Execute sql ps, Fetchall,
                      Log (QuerySucceeded (length rs)), Close, Log ConnectionClosed],
                     Inr rs))"
    if "is_retrieval sql" "fetchall cur = Inr rs"
    unfolding e run_retrieval [OF that(1) assms(3) that(2)] by simp
  have b: "execute_query cfg be sql ps =
              (query_log cfg sql @ [Connect] @ fst (configure_session cfg be) @
               [Commit, Log (Connected (security_mode cfg)), Execute sql ps, Commit,
                Log (OperationSucceeded (rowcount cur)), Close, Log ConnectionClosed],
               Inr [status_record (rowcount cur)])"
    if "\<not> is_retrieval sql" "db_commit be (session_history cfg @ [sql]) = None"
    unfolding e run_mutation [OF that(1) assms(3) that(2)] by simp
  from a b keyword_retrieval show ?thesis by blast
qed

theorem execute_branches_on_prefix_witness:
  "validate_sql ''select n from t'' (security_mode (demo_config READONLY 2))
   \<and> session_opens (demo_config READONLY 2) demo_backend
   \<and> is_retrieval ''select n from t''
   \<and> extract_first_keyword (strip (upper ''select n from t'')) \<in> set retrieval_prefixes
   \<and> snd (execute_query (demo_config READONLY 2) demo_backend ''select n from t'' None)
       = Inr [[(''n'', PyInt 1)], [(''n'', PyInt 2)]]
   \<and> validate_sql ''analyze t'' (security_mode (demo_config READONLY 2))
   \<and> \<not> is_retrieval ''analyze t''
   \<and> execute_query (demo_config READONLY 2) demo_backend ''analyze t'' None
       = ([Connect, Execute set_default_read_only None, Execute set_read_only None,
           Log ReadonlySessionSet, Commit, Log (Connected READONLY),
           Execute ''analyze t'' None, Commit, Log (OperationSucceeded 3), Close,
           Log ConnectionClosed],
          Inr [status_record 3])"
proof -
  let ?c = "demo_config READONLY 2"
  have m: "security_mode ?c = READONLY" "max_result_rows ?c = 2" "query_log ?c s = []" for s
    by (simp_all add: demo_config_def query_log_def)
  have v: "validate_sql ''select n from t'' READONLY" "validate_sql ''analyze t'' READONLY"
    by code_simp+
  have r: "is_retrieval ''select n from t''" "\<not> is_retrieval ''analyze t''"
    "extract_first_keyword (strip (upper ''select n from t'')) \<in> set retrieval_prefixes"
    by code_simp+
  have x: "db_execute demo_backend h s None = Inr \<lparr>fetchall = Inr demo_rows, rowcount = 3\<rparr>"
    "db_commit demo_backend h = None" for h s
    by (simp_all add: demo_backend_def)
  have f: "fst (configure_session ?c demo_backend) =
      [Execute set_default_read_only None, Execute set_read_only None, Log ReadonlySessionSet]"
    by (simp add: configure_session_def is_readonly_mode_def m x)
  have v': "validate_sql ''select n from t'' (security_mode ?c)"
    "validate_sql ''analyze t'' (security_mode ?c)"
    using v m by simp_all
  show ?thesis
    using v' r m f demo_session_opens [of READONLY 2]
      execute_branches_on_prefix [where rs = demo_rows, OF v'(1) demo_session_opens x(1)]
      execute_branches_on_prefix [where rs = demo_rows, OF v'(2) demo_session_opens x(1)]
    by (simp add: x demo_rows_def py_slice_to_def)
qed

text \<open>
  Branching on the leading keyword fails: in full-access mode \<open>SELECT* FROM t\<close> has the
  leading keyword \<open>SELECT*\<close>, which is none of the five, and yet the rows are fetched
  and returned, with no commit after the statement and no status record.
\<close>

theorem leading_keyword_branch_counterexample:
  "validate_sql ''SELECT* FROM t'' (security_mode (demo_config FULL_ACCESS 10))
   \<and> extract_first_keyword (strip (upper ''SELECT* FROM t'')) = ''SELECT*''
   \<and> extract_first_keyword (strip (upper ''SELECT* FROM t'')) \<notin> set retrieval_prefixes
   \<and> execute_query (demo_config FULL_ACCESS 10) demo_backend ''SELECT* FROM t'' None
       = ([Connect, Commit, Log (Connected FULL_ACCESS), Execute ''SELECT* FROM t'' None,
           Fetchall, Log (QuerySucceeded 3), Close, Log ConnectionClosed],
          Inr demo_rows)
   \<and> Inr demo_rows \<noteq> (Inr [status_record 3] :: error + row list)"
  by code_simp

section \<open>The schema gate\<close>

text \<open>
  C5. With the policy in its allow-list shape (neither all schemas nor automatic
  discovery), the gate permits a schema exactly when it is a member of the configured
  schemas, compared as exact strings: with \<open>public\<close> alone configured, \<open>hr\<close> and
  \<open>Public\<close> are refused and \<open>public\<close> is permitted. A refusal makes \<open>get_all_tables\<close>
  raise, before anything reaches the database, the error that carries the requested
  schema and the display of the policy, here the configured schemas.
\<close>

theorem allow_list_gate:
  assumes "\<not> is_all_schemas_allowed cfg" "\<not> is_auto_discover_schemas cfg"
  shows "is_schema_allowed cfg be schema = ([], schema \<in> set (allowed_schemas cfg))
   \<and> (schema \<notin> set (allowed_schemas cfg) \<longrightarrow>
        get_all_tables cfg be schema =
          ([], Inl (SchemaNotAllowed schema (get_allowed_schemas_display cfg))))
   \<and> get_allowed_schemas_display cfg = ListDisplay (allowed_schemas cfg)
   \<and> (allowed_schemas cfg = [''public''] \<longrightarrow>
        \<not> snd (is_schema_allowed cfg be ''hr'') \<and> snd (is_schema_allowed cfg be ''public'')
        \<and> \<not> snd (is_schema_allowed cfg be ''Public''))"
  using assms
  by (simp add: is_schema_allowed_def get_all_tables_def get_allowed_schemas_display_def)

theorem allow_list_gate_witness:
  "\<not> is_all_schemas_allowed (demo_config READONLY 10)
   \<and> \<not> is_auto_discover_schemas (demo_config READONLY 10)
   \<and> allowed_schemas (demo_config READONLY 10) = [''public'']
   \<and> ''hr'' \<notin> set (allowed_schemas (demo_config READONLY 10))
   \<and> is_schema_allowed (demo_config READONLY 10) demo_backend ''hr'' = ([], False)
   \<and> get_all_tables (demo_config READONLY 10) demo_backend ''hr'' =
        ([], Inl (SchemaNotAllowed ''hr'' (ListDisplay [''public''])))
   \<and> snd (is_schema_allowed (demo_config READONLY 10) demo_backend ''public'')"
proof -
  have h: "\<not> is_all_schemas_allowed (demo_config READONLY 10)"
    "\<not> is_auto_discover_schemas (demo_config READONLY 10)"
    "allowed_schemas (demo_config READONLY 10) = [''public'']"
    by (simp_all add: demo_config_def)
  show ?thesis
    using h allow_list_gate [OF h(1,2), of demo_backend "''hr''"]
      allow_list_gate [OF h(1,2), of demo_backend "''public''"]
    by simp
qed

end
